theory Spec2Isabelle
  imports Complex_Main
begin

section \<open>MRzeroCore sequence definitions (sequence.py)\<close>

text \<open>
  A shallow embedding of \<^verbatim>\<open>src/python/MRzeroCore/sequence.py\<close>. Python exceptions
  are values of \<open>py_error\<close>; a function that can raise returns \<open>py_error + 'a\<close>
  with \<open>Inl\<close> for the exception. In-place mutation is state passing: the function
  returns the updated object.

  Numbers: float tensors are idealised as \<open>real\<close> (no rounding). The integer tensor
  \<open>adc_usage\<close> is an \<^verbatim>\<open>int32\<close> tensor, the dtype \<^verbatim>\<open>Repetition.zero\<close> gives it: its
  elements are \<open>int\<close> values, and the in-place addition of \<^verbatim>\<open>shift_contrasts\<close> wraps
  around at 32 bits (\<open>wrap_int32\<close>). Devices are not modelled: every tensor lives on
  the same device.
\<close>

datatype py_error = ValueError | IndexError | AttributeError | RuntimeError

subsection \<open>Tensors\<close>

text \<open>
  A torch tensor is its shape and its elements in row-major order. Torch keeps
  \<open>length elems = prod_list shape\<close> for every tensor it hands out (\<open>tensor_wf\<close>).
\<close>

record 'a tensor =
  shape :: "nat list"
  elems :: "'a list"

definition numel :: "'a tensor \<Rightarrow> nat" where
  "numel t = prod_list (shape t)"

definition tensor_wf :: "'a tensor \<Rightarrow> bool" where
  "tensor_wf t = (length (elems t) = prod_list (shape t))"

definition ndim :: "'a tensor \<Rightarrow> nat" where
  "ndim t = length (shape t)"

definition dim_size :: "'a tensor \<Rightarrow> nat \<Rightarrow> nat" where
  "dim_size t i = shape t ! i"

text \<open>\<^verbatim>\<open>torch.zeros(shape)\<close>.\<close>

definition torch_zeros :: "nat list \<Rightarrow> ('a::zero) tensor" where
  "torch_zeros sh = \<lparr>shape = sh, elems = replicate (prod_list sh) 0\<rparr>"

text \<open>\<^verbatim>\<open>t.clone()\<close>: a new tensor with the same shape and elements.\<close>

definition tensor_clone :: "'a tensor \<Rightarrow> 'a tensor" where
  "tensor_clone t = \<lparr>shape = shape t, elems = elems t\<rparr>"

subsection \<open>PulseUsage and Pulse\<close>

datatype PulseUsage = UNDEF | EXCIT | REFOC | STORE | FATSAT

text \<open>
  \<^verbatim>\<open>angle: float | torch.Tensor\<close>: \<^verbatim>\<open>Pulse.__init__\<close> stores what it is given, so
  the field holds either a Python float or a tensor.
\<close>

datatype scalar = PyFloat real | TensorScalar real

record Pulse =
  usage :: PulseUsage
  angle :: scalar
  phase :: scalar
  selective :: bool

definition Pulse_init :: "PulseUsage \<Rightarrow> scalar \<Rightarrow> scalar \<Rightarrow> bool \<Rightarrow> Pulse" where
  "Pulse_init u a p s = \<lparr>usage = u, angle = a, phase = p, selective = s\<rparr>"

text \<open>\<^verbatim>\<open>return cls(PulseUsage.UNDEF, 0.0, 0.0, True)\<close>\<close>

definition Pulse_zero :: Pulse where
  "Pulse_zero = Pulse_init UNDEF (PyFloat 0) (PyFloat 0) True"

text \<open>
  \<^verbatim>\<open>x.clone()\<close> on a field: a tensor has the method, a Python float does not
  (\<^verbatim>\<open>AttributeError: 'float' object has no attribute 'clone'\<close>).
\<close>

definition scalar_clone :: "scalar \<Rightarrow> py_error + scalar" where
  "scalar_clone x = (case x of PyFloat v \<Rightarrow> Inl AttributeError | TensorScalar v \<Rightarrow> Inr (TensorScalar v))"

text \<open>
  \<^verbatim>\<open>return Pulse(self.usage, self.angle.clone(), self.phase.clone(), self.selective)\<close>,
  arguments evaluated left to right.
\<close>

definition Pulse_clone :: "Pulse \<Rightarrow> py_error + Pulse" where
  "Pulse_clone p =
     (case scalar_clone (angle p) of
        Inl e \<Rightarrow> Inl e
      | Inr a \<Rightarrow>
          (case scalar_clone (phase p) of
             Inl e \<Rightarrow> Inl e
           | Inr ph \<Rightarrow> Inr (Pulse_init (usage p) a ph (selective p))))"

subsection \<open>Repetition\<close>

record Repetition =
  pulse :: Pulse
  event_count :: nat
  event_time :: "real tensor"
  gradm :: "real tensor"
  adc_phase :: "real tensor"
  adc_usage :: "int tensor"

text \<open>
  \<^verbatim>\<open>Repetition.__init__\<close>: the five checks in the source's order, each raising
  \<^verbatim>\<open>ValueError\<close>; the fields are assigned only when all of them pass.
\<close>

definition Repetition_init ::
  "Pulse \<Rightarrow> real tensor \<Rightarrow> real tensor \<Rightarrow> real tensor \<Rightarrow> int tensor \<Rightarrow> py_error + Repetition" where
  "Repetition_init p et g ph us =
     (if numel et = 0 then Inl ValueError
      else if shape et \<noteq> [numel et] then Inl ValueError
      else if shape g \<noteq> [numel et, 3] then Inl ValueError
      else if shape ph \<noteq> [numel et] then Inl ValueError
      else if shape us \<noteq> [numel et] then Inl ValueError
      else Inr \<lparr>pulse = p, event_count = numel et, event_time = et, gradm = g,
                adc_phase = ph, adc_usage = us\<rparr>)"

text \<open>\<^verbatim>\<open>Repetition.zero(event_count)\<close>\<close>

definition Repetition_zero :: "nat \<Rightarrow> py_error + Repetition" where
  "Repetition_zero n =
     Repetition_init Pulse_zero (torch_zeros [n]) (torch_zeros [n, 3]) (torch_zeros [n])
       (torch_zeros [n])"

text \<open>
  \<^verbatim>\<open>Repetition.clone\<close> builds a new \<^verbatim>\<open>Repetition(...)\<close> from the cloned parts, so
  the constructor's checks run again; the pulse is cloned first.
\<close>

definition Repetition_clone :: "Repetition \<Rightarrow> py_error + Repetition" where
  "Repetition_clone r =
     (case Pulse_clone (pulse r) of
        Inl e \<Rightarrow> Inl e
      | Inr p \<Rightarrow>
          Repetition_init p (tensor_clone (event_time r)) (tensor_clone (gradm r))
            (tensor_clone (adc_phase r)) (tensor_clone (adc_usage r)))"

text \<open>\<^verbatim>\<open>sorted(torch.unique(self.adc_usage).tolist())\<close>\<close>

definition Repetition_get_contrasts :: "Repetition \<Rightarrow> int list" where
  "Repetition_get_contrasts r = sort (remdups (elems (adc_usage r)))"

text \<open>
  The value an \<^verbatim>\<open>int32\<close> element holds after an addition whose exact result is \<open>x\<close>:
  two's complement wrap-around into \<open>-2^31 .. 2^31 - 1\<close>.
\<close>

definition wrap_int32 :: "int \<Rightarrow> int" where
  "wrap_int32 x = (x + 2147483648) mod 4294967296 - 2147483648"

text \<open>
  \<^verbatim>\<open>self.adc_usage[self.adc_usage > 0] += offset\<close>: the masked in-place add touches
  exactly the elements that are greater than zero, and the sum is stored back into the
  \<^verbatim>\<open>int32\<close> tensor.
\<close>

definition masked_add_gt0 :: "int tensor \<Rightarrow> int \<Rightarrow> int tensor" where
  "masked_add_gt0 t offset =
     t\<lparr>elems := map (\<lambda>x. if 0 < x then wrap_int32 (x + offset) else x) (elems t)\<rparr>"

definition Repetition_shift_contrasts :: "Repetition \<Rightarrow> int \<Rightarrow> Repetition" where
  "Repetition_shift_contrasts r offset = r\<lparr>adc_usage := masked_add_gt0 (adc_usage r) offset\<rparr>"

subsection \<open>Torch operations used by Sequence\<close>

text \<open>
  The operations below are modelled on the ranks that a constructed Repetition gives them:
  rank 1 for \<open>event_time\<close> and \<open>adc_usage\<close>, rank 2 for \<open>gradm\<close> and the
  trajectories. Broadcasting and concatenation over other ranks are outside the model; there
  the model reports an error, and no theorem below reaches such a case.
\<close>

fun rows_of :: "nat \<Rightarrow> nat \<Rightarrow> 'a list \<Rightarrow> 'a list list" where
  "rows_of 0 w xs = []"
| "rows_of (Suc n) w xs = take w xs # rows_of n w (drop w xs)"

text \<open>The rows of a rank-2 tensor.\<close>

definition tensor_rows :: "'a tensor \<Rightarrow> 'a list list" where
  "tensor_rows t = rows_of (dim_size t 0) (dim_size t 1) (elems t)"

text \<open>\<^verbatim>\<open>-t\<close>\<close>

definition torch_neg :: "real tensor \<Rightarrow> real tensor" where
  "torch_neg t = \<lparr>shape = shape t, elems = map uminus (elems t)\<rparr>"

text \<open>\<^verbatim>\<open>t[:, None]\<close>: a new axis of size 1 after the first; a rank-0 tensor has no first axis.\<close>

definition index_all_None :: "'a tensor \<Rightarrow> py_error + 'a tensor" where
  "index_all_None t =
     (case shape t of
        [] \<Rightarrow> Inl IndexError
      | n # rest \<Rightarrow> Inr \<lparr>shape = n # 1 # rest, elems = elems t\<rparr>)"

text \<open>\<^verbatim>\<open>torch.cat([a, b], 1)\<close> on two rank-2 tensors with the same number of rows.\<close>

definition torch_cat_dim1 :: "'a tensor \<Rightarrow> 'a tensor \<Rightarrow> py_error + 'a tensor" where
  "torch_cat_dim1 a b =
     (if ndim a = 2 \<and> ndim b = 2 \<and> dim_size a 0 = dim_size b 0
      then Inr \<lparr>shape = [dim_size a 0, dim_size a 1 + dim_size b 1],
                elems = concat (map2 (@) (tensor_rows a) (tensor_rows b))\<rparr>
      else Inl RuntimeError)"

text \<open>
  \<^verbatim>\<open>torch.cumsum(t, dim=0)\<close> on a rank-2 tensor: row 0 is kept, row \<open>i\<close> is row \<open>i - 1\<close>
  of the result plus row \<open>i\<close> of the input.
\<close>

fun cumsum_from :: "real list \<Rightarrow> real list list \<Rightarrow> real list list" where
  "cumsum_from acc [] = []"
| "cumsum_from acc (r # rs) = (let a = map2 (+) acc r in a # cumsum_from a rs)"

definition cumsum_rows :: "real list list \<Rightarrow> real list list" where
  "cumsum_rows rs = (case rs of [] \<Rightarrow> [] | r # rs' \<Rightarrow> r # cumsum_from r rs')"

definition torch_cumsum_dim0 :: "real tensor \<Rightarrow> real tensor" where
  "torch_cumsum_dim0 t = \<lparr>shape = shape t, elems = concat (cumsum_rows (tensor_rows t))\<rparr>"

text \<open>\<^verbatim>\<open>v + t\<close> for a rank-1 \<open>v\<close> and a rank-2 \<open>t\<close> of the same width: \<open>v\<close> is added to every row.\<close>

definition torch_add_broadcast :: "real tensor \<Rightarrow> real tensor \<Rightarrow> py_error + real tensor" where
  "torch_add_broadcast v t =
     (if ndim v = 1 \<and> ndim t = 2 \<and> dim_size v 0 = dim_size t 1
      then Inr \<lparr>shape = shape t,
                elems = concat (map (\<lambda>row. map2 (+) (elems v) row) (tensor_rows t))\<rparr>
      else Inl RuntimeError)"

text \<open>\<^verbatim>\<open>t[-1, :]\<close>: the last row; \<^verbatim>\<open>IndexError\<close> when there is no row.\<close>

definition index_last_row :: "'a tensor \<Rightarrow> py_error + 'a tensor" where
  "index_last_row t =
     (if ndim t \<noteq> 2 then Inl IndexError
      else if dim_size t 0 = 0 then Inl IndexError
      else Inr \<lparr>shape = [dim_size t 1], elems = last (tensor_rows t)\<rparr>)"

text \<open>\<^verbatim>\<open>t > 0\<close>, \<^verbatim>\<open>t != 0\<close>, \<^verbatim>\<open>t == c\<close>: elementwise, same shape.\<close>

definition tensor_gt0 :: "int tensor \<Rightarrow> bool tensor" where
  "tensor_gt0 t = \<lparr>shape = shape t, elems = map (\<lambda>x. 0 < x) (elems t)\<rparr>"

definition tensor_ne0 :: "int tensor \<Rightarrow> bool tensor" where
  "tensor_ne0 t = \<lparr>shape = shape t, elems = map (\<lambda>x. x \<noteq> 0) (elems t)\<rparr>"

definition tensor_eq :: "int tensor \<Rightarrow> int \<Rightarrow> bool tensor" where
  "tensor_eq t c = \<lparr>shape = shape t, elems = map (\<lambda>x. x = c) (elems t)\<rparr>"

text \<open>
  \<^verbatim>\<open>t[m]\<close> for a rank-2 \<open>t\<close> and a rank-1 boolean \<open>m\<close>: the rows of \<open>t\<close> where \<open>m\<close> is
  true; \<^verbatim>\<open>IndexError\<close> when \<open>m\<close> has not one entry per row.
\<close>

definition index_mask_rows :: "'a tensor \<Rightarrow> bool tensor \<Rightarrow> py_error + 'a tensor" where
  "index_mask_rows t m =
     (if ndim t = 2 \<and> ndim m = 1 \<and> dim_size m 0 = dim_size t 0
      then (let sel = map fst (filter snd (zip (tensor_rows t) (elems m)))
            in Inr \<lparr>shape = [length sel, dim_size t 1], elems = concat sel\<rparr>)
      else Inl IndexError)"

text \<open>\<^verbatim>\<open>t[m]\<close> for a boolean \<open>m\<close> of the shape of \<open>t\<close>: the selected elements, rank 1.\<close>

definition index_mask :: "'a tensor \<Rightarrow> bool tensor \<Rightarrow> py_error + 'a tensor" where
  "index_mask t m =
     (if shape m = shape t
      then (let sel = map fst (filter snd (zip (elems t) (elems m)))
            in Inr \<lparr>shape = [length sel], elems = sel\<rparr>)
      else Inl IndexError)"

text \<open>
  \<^verbatim>\<open>torch.cat(ts)\<close> along dimension 0: \<^verbatim>\<open>RuntimeError\<close> on an empty list and when the
  shapes differ after the first dimension.
\<close>

definition torch_cat_dim0 :: "'a tensor list \<Rightarrow> py_error + 'a tensor" where
  "torch_cat_dim0 ts =
     (case ts of
        [] \<Rightarrow> Inl RuntimeError
      | t # rest \<Rightarrow>
          if 1 \<le> ndim t \<and> list_all (\<lambda>u. 1 \<le> ndim u \<and> tl (shape u) = tl (shape t)) rest
          then Inr \<lparr>shape = sum_list (map (\<lambda>u. dim_size u 0) ts) # tl (shape t),
                    elems = concat (map elems ts)\<rparr>
          else Inl RuntimeError)"

text \<open>A list comprehension whose body can raise: the first exception ends it.\<close>

fun map_err :: "('a \<Rightarrow> py_error + 'b) \<Rightarrow> 'a list \<Rightarrow> py_error + 'b list" where
  "map_err f [] = Inr []"
| "map_err f (x # xs) =
     (case f x of
        Inl e \<Rightarrow> Inl e
      | Inr y \<Rightarrow> (case map_err f xs of Inl e \<Rightarrow> Inl e | Inr ys \<Rightarrow> Inr (y # ys)))"

text \<open>Python's \<^verbatim>\<open>max(xs)\<close> on a list: \<^verbatim>\<open>ValueError\<close> when it is empty.\<close>

definition py_max :: "int list \<Rightarrow> py_error + int" where
  "py_max xs = (case xs of [] \<Rightarrow> Inl ValueError | x # rest \<Rightarrow> Inr (fold max rest x))"

subsection \<open>Sequence\<close>

type_synonym Sequence = "Repetition list"

datatype device = Device

definition Repetition_device :: "Repetition \<Rightarrow> device" where
  "Repetition_device r = Device"

text \<open>\<^verbatim>\<open>return self[0].device\<close>: \<^verbatim>\<open>IndexError\<close> on a Sequence without repetitions.\<close>

definition Sequence_device :: "Sequence \<Rightarrow> py_error + device" where
  "Sequence_device s = (case s of [] \<Rightarrow> Inl IndexError | r # rest \<Rightarrow> Inr (Repetition_device r))"

definition Sequence_clone :: "Sequence \<Rightarrow> py_error + Sequence" where
  "Sequence_clone s = map_err Repetition_clone s"

text \<open>
  The loop of \<^verbatim>\<open>get_full_kspace\<close>. The \<^verbatim>\<open>if/elif\<close> chain on the pulse usage gives the
  pair \<open>(k_pos, stored)\<close> the rest of the body works with.
\<close>

fun get_full_kspace_loop ::
  "real tensor \<Rightarrow> real tensor \<Rightarrow> Repetition list \<Rightarrow> py_error + real tensor list" where
  "get_full_kspace_loop k_pos stored [] = Inr []"
| "get_full_kspace_loop k_pos stored (rep # reps) =
     (let (k_pos1, stored1) =
            (if usage (pulse rep) = EXCIT then (stored, stored)
             else if usage (pulse rep) = REFOC then (torch_neg k_pos, stored)
             else if usage (pulse rep) = STORE then (k_pos, k_pos)
             else (k_pos, stored))
      in case index_all_None (event_time rep) of
           Inl e \<Rightarrow> Inl e
         | Inr et \<Rightarrow>
        (case torch_cat_dim1 (gradm rep) et of
           Inl e \<Rightarrow> Inl e
         | Inr c \<Rightarrow>
        (case torch_add_broadcast k_pos1 (torch_cumsum_dim0 c) of
           Inl e \<Rightarrow> Inl e
         | Inr rep_traj \<Rightarrow>
        (case index_last_row rep_traj of
           Inl e \<Rightarrow> Inl e
         | Inr k_pos2 \<Rightarrow>
        (case get_full_kspace_loop k_pos2 stored1 reps of
           Inl e \<Rightarrow> Inl e
         | Inr trajectory \<Rightarrow> Inr (rep_traj # trajectory))))))"

text \<open>
  \<^verbatim>\<open>get_full_kspace\<close>: \<open>k_pos\<close> and \<open>stored\<close> are created on \<^verbatim>\<open>self.device\<close>, which
  is read before the loop.
\<close>

definition get_full_kspace :: "Sequence \<Rightarrow> py_error + real tensor list" where
  "get_full_kspace s =
     (case Sequence_device s of
        Inl e \<Rightarrow> Inl e
      | Inr d \<Rightarrow>
          (case Sequence_device s of
             Inl e \<Rightarrow> Inl e
           | Inr d' \<Rightarrow> get_full_kspace_loop (torch_zeros [4]) (torch_zeros [4]) s))"

text \<open>
  \<^verbatim>\<open>torch.cat([shot[rep.adc_usage > 0] for shot, rep in zip(self.get_full_kspace(), self)])\<close>
\<close>

definition get_kspace :: "Sequence \<Rightarrow> py_error + real tensor" where
  "get_kspace s =
     (case get_full_kspace s of
        Inl e \<Rightarrow> Inl e
      | Inr shots \<Rightarrow>
          (case map_err (\<lambda>(shot, rep). index_mask_rows shot (tensor_gt0 (adc_usage rep)))
                  (zip shots s) of
             Inl e \<Rightarrow> Inl e
           | Inr parts \<Rightarrow> torch_cat_dim0 parts))"

text \<open>
  \<^verbatim>\<open>torch.cat([rep.adc_usage[rep.adc_usage != 0] == contrast for rep in self])\<close>
\<close>

definition get_contrast_mask :: "Sequence \<Rightarrow> int \<Rightarrow> py_error + bool tensor" where
  "get_contrast_mask s contrast =
     (case map_err (\<lambda>rep. case index_mask (adc_usage rep) (tensor_ne0 (adc_usage rep)) of
                             Inl e \<Rightarrow> Inl e
                           | Inr t \<Rightarrow> Inr (tensor_eq t contrast)) s of
        Inl e \<Rightarrow> Inl e
      | Inr parts \<Rightarrow> torch_cat_dim0 parts)"

text \<open>\<^verbatim>\<open>sorted(list(set([c for rep in self for c in rep.get_contrasts()])))\<close>\<close>

definition Sequence_get_contrasts :: "Sequence \<Rightarrow> int list" where
  "Sequence_get_contrasts s = sort (remdups (concat (map Repetition_get_contrasts s)))"

definition Sequence_shift_contrasts :: "Sequence \<Rightarrow> int \<Rightarrow> Sequence" where
  "Sequence_shift_contrasts s offset = map (\<lambda>rep. Repetition_shift_contrasts rep offset) s"

subsection \<open>chain\<close>

text \<open>
  The loop of \<^verbatim>\<open>chain\<close>: \<open>temp\<close> is the clone, shifted in place by the running offset
  (also when \<open>oneshot\<close> is set, where the offset stays 0); the offset is updated only
  when \<open>oneshot\<close> is not set.
\<close>

fun chain_loop :: "bool \<Rightarrow> Sequence \<Rightarrow> int \<Rightarrow> Sequence list \<Rightarrow> py_error + Sequence" where
  "chain_loop oneshot combined contrast_offset [] = Inr combined"
| "chain_loop oneshot combined contrast_offset (seq # seqs) =
     (case Sequence_clone seq of
        Inl e \<Rightarrow> Inl e
      | Inr temp0 \<Rightarrow>
          (let temp = Sequence_shift_contrasts temp0 contrast_offset
           in if \<not> oneshot
              then (case py_max (Sequence_get_contrasts temp) of
                      Inl e \<Rightarrow> Inl e
                    | Inr m \<Rightarrow> chain_loop oneshot (combined @ temp) m seqs)
              else chain_loop oneshot (combined @ temp) contrast_offset seqs))"

definition chain :: "Sequence list \<Rightarrow> bool \<Rightarrow> py_error + Sequence" where
  "chain sequences oneshot = chain_loop oneshot [] 0 sequences"

subsection \<open>What a constructed Repetition satisfies\<close>

text \<open>
  The shapes \<^verbatim>\<open>Repetition.__init__\<close> checks, together with torch's own invariant on the
  four tensors.
\<close>

definition Repetition_valid :: "Repetition \<Rightarrow> bool" where
  "Repetition_valid r =
     (1 \<le> event_count r
      \<and> shape (event_time r) = [event_count r]
      \<and> shape (gradm r) = [event_count r, 3]
      \<and> shape (adc_phase r) = [event_count r]
      \<and> shape (adc_usage r) = [event_count r]
      \<and> tensor_wf (event_time r) \<and> tensor_wf (gradm r)
      \<and> tensor_wf (adc_phase r) \<and> tensor_wf (adc_usage r))"

subsection \<open>The reference recurrence of the specification\<close>

text \<open>
  The trajectory as the specification words it, on plain lists: a position is a list of
  four numbers.
\<close>

definition spec_vadd :: "real list \<Rightarrow> real list \<Rightarrow> real list" where
  "spec_vadd a b = map2 (+) a b"

definition spec_vsum :: "real list list \<Rightarrow> real list" where
  "spec_vsum ds = foldr spec_vadd ds [0, 0, 0, 0]"

text \<open>The gradient moment and the duration of event \<open>i\<close>.\<close>

definition event_gradm :: "Repetition \<Rightarrow> nat \<Rightarrow> real list" where
  "event_gradm r i = take 3 (drop (3 * i) (elems (gradm r)))"

definition event_duration :: "Repetition \<Rightarrow> nat \<Rightarrow> real" where
  "event_duration r i = elems (event_time r) ! i"

text \<open>Each event's gradient moment concatenated with its duration.\<close>

definition spec_deltas :: "Repetition \<Rightarrow> real list list" where
  "spec_deltas r = map (\<lambda>i. event_gradm r i @ [event_duration r i]) [0..<event_count r]"

text \<open>The inclusive cumulative sum: entry \<open>i\<close> is the sum of the entries \<open>0 .. i\<close>.\<close>

definition spec_cumsum :: "real list list \<Rightarrow> real list list" where
  "spec_cumsum ds = map (\<lambda>i. spec_vsum (take (Suc i) ds)) [0..<length ds]"

definition spec_rep_traj :: "real list \<Rightarrow> Repetition \<Rightarrow> real list list" where
  "spec_rep_traj k_pos r = map (spec_vadd k_pos) (spec_cumsum (spec_deltas r))"

text \<open>Step 1 of the specification: the dispatch on the pulse usage.\<close>

fun spec_adjust :: "PulseUsage \<Rightarrow> real list \<times> real list \<Rightarrow> real list \<times> real list" where
  "spec_adjust EXCIT (k_pos, stored) = (stored, stored)"
| "spec_adjust REFOC (k_pos, stored) = (map uminus k_pos, stored)"
| "spec_adjust STORE (k_pos, stored) = (k_pos, k_pos)"
| "spec_adjust UNDEF (k_pos, stored) = (k_pos, stored)"
| "spec_adjust FATSAT (k_pos, stored) = (k_pos, stored)"

fun spec_trajectories :: "real list \<Rightarrow> real list \<Rightarrow> Repetition list \<Rightarrow> real list list list" where
  "spec_trajectories k_pos stored [] = []"
| "spec_trajectories k_pos stored (r # rs) =
     (let (k1, s1) = spec_adjust (usage (pulse r)) (k_pos, stored);
          traj = spec_rep_traj k1 r
      in traj # spec_trajectories (last traj) s1 rs)"

definition spec_full_kspace :: "Repetition list \<Rightarrow> real list list list" where
  "spec_full_kspace s = spec_trajectories [0, 0, 0, 0] [0, 0, 0, 0] s"

text \<open>A list of rows of width \<open>w\<close> as a rank-2 tensor.\<close>

definition tensor_of_rows :: "nat \<Rightarrow> 'a list list \<Rightarrow> 'a tensor" where
  "tensor_of_rows w rows = \<lparr>shape = [length rows, w], elems = concat rows\<rparr>"

text \<open>The measured events of a repetition: the rows of its trajectory at the events with \<open>adc_usage > 0\<close>.\<close>

definition measured_rows :: "real list list \<Rightarrow> Repetition \<Rightarrow> real list list" where
  "measured_rows traj r =
     map (\<lambda>i. traj ! i) (filter (\<lambda>i. 0 < elems (adc_usage r) ! i) [0..<event_count r])"

definition measured_count :: "Sequence \<Rightarrow> nat" where
  "measured_count s = sum_list (map (\<lambda>r. length (filter (\<lambda>x. 0 < x) (elems (adc_usage r)))) s)"

subsection \<open>Example repetitions\<close>

text \<open>
  A Repetition with a tensor-valued pulse of the given usage, the given durations,
  gradient moments (row-major, three per event) and contrast tags, and zero ADC phase.
\<close>

definition rep_of :: "PulseUsage \<Rightarrow> real list \<Rightarrow> real list \<Rightarrow> int list \<Rightarrow> Repetition" where
  "rep_of u et g us =
     \<lparr>pulse = Pulse_init u (TensorScalar 0) (TensorScalar 0) True,
      event_count = length et,
      event_time = \<lparr>shape = [length et], elems = et\<rparr>,
      gradm = \<lparr>shape = [length et, 3], elems = g\<rparr>,
      adc_phase = \<lparr>shape = [length et], elems = replicate (length et) 0\<rparr>,
      adc_usage = \<lparr>shape = [length et], elems = us\<rparr>\<rparr>"

section \<open>Pulse\<close>

text \<open>
  C9. The claim: every Pulse, the zero pulse of \<^verbatim>\<open>Pulse.zero()\<close> included, can be
  cloned without an error. On the code, \<^verbatim>\<open>Pulse.zero()\<close> stores the Python floats
  \<open>0.0\<close> in \<open>angle\<close> and \<open>phase\<close> (the constructor does not convert them to tensors,
  although its docstring says so), and \<^verbatim>\<open>clone()\<close> calls \<^verbatim>\<open>.clone()\<close> on them:
  cloning the zero pulse raises \<^verbatim>\<open>AttributeError\<close>.
\<close>

theorem Pulse_zero_clone_raises:
  "Pulse_clone Pulse_zero = Inl AttributeError"
  by (simp add: Pulse_clone_def Pulse_zero_def Pulse_init_def scalar_clone_def)

section \<open>Repetition\<close>

text \<open>
  C8. Constructing a Repetition succeeds exactly when \<open>event_time\<close> has shape \<open>[N]\<close>
  for some \<open>N \<ge> 1\<close>, \<open>gradm\<close> has shape \<open>[N, 3]\<close>, and \<open>adc_phase\<close> and \<open>adc_usage\<close> have
  shape \<open>[N]\<close>; every other input raises \<^verbatim>\<open>ValueError\<close> and yields no Repetition; a
  Repetition that was constructed stores the inputs and has these shapes, with
  \<open>event_count = N\<close>.
\<close>

theorem Repetition_init_iff:
  "((\<exists>r. Repetition_init p et g ph us = Inr r) \<longleftrightarrow>
      (\<exists>N. 1 \<le> N \<and> shape et = [N] \<and> shape g = [N, 3] \<and> shape ph = [N] \<and> shape us = [N]))
   \<and> ((\<nexists>r. Repetition_init p et g ph us = Inr r) \<longleftrightarrow> Repetition_init p et g ph us = Inl ValueError)
   \<and> (\<forall>r. Repetition_init p et g ph us = Inr r \<longrightarrow>
         r = \<lparr>pulse = p, event_count = numel et, event_time = et, gradm = g,
               adc_phase = ph, adc_usage = us\<rparr>
         \<and> 1 \<le> event_count r
         \<and> shape (event_time r) = [event_count r]
         \<and> shape (gradm r) = [event_count r, 3]
         \<and> shape (adc_phase r) = [event_count r]
         \<and> shape (adc_usage r) = [event_count r])"
proof (intro conjI)
  show "(\<exists>r. Repetition_init p et g ph us = Inr r) \<longleftrightarrow>
      (\<exists>N. 1 \<le> N \<and> shape et = [N] \<and> shape g = [N, 3] \<and> shape ph = [N] \<and> shape us = [N])"
  proof
    assume "\<exists>r. Repetition_init p et g ph us = Inr r"
    then have "numel et \<noteq> 0" "shape et = [numel et]" "shape g = [numel et, 3]"
      "shape ph = [numel et]" "shape us = [numel et]"
      by (auto simp: Repetition_init_def split: if_splits)
    then show "\<exists>N. 1 \<le> N \<and> shape et = [N] \<and> shape g = [N, 3] \<and> shape ph = [N] \<and> shape us = [N]"
      by (intro exI[of _ "numel et"]) simp
  next
    assume "\<exists>N. 1 \<le> N \<and> shape et = [N] \<and> shape g = [N, 3] \<and> shape ph = [N] \<and> shape us = [N]"
    then obtain N where N: "1 \<le> N" "shape et = [N]" "shape g = [N, 3]" "shape ph = [N]"
      "shape us = [N]" by blast
    then have "numel et = N" by (simp add: numel_def)
    with N show "\<exists>r. Repetition_init p et g ph us = Inr r"
      by (simp add: Repetition_init_def)
  qed
next
  show "(\<nexists>r. Repetition_init p et g ph us = Inr r) \<longleftrightarrow> Repetition_init p et g ph us = Inl ValueError"
    by (simp add: Repetition_init_def)
next
  show "\<forall>r. Repetition_init p et g ph us = Inr r \<longrightarrow>
         r = \<lparr>pulse = p, event_count = numel et, event_time = et, gradm = g,
               adc_phase = ph, adc_usage = us\<rparr>
         \<and> 1 \<le> event_count r
         \<and> shape (event_time r) = [event_count r]
         \<and> shape (gradm r) = [event_count r, 3]
         \<and> shape (adc_phase r) = [event_count r]
         \<and> shape (adc_usage r) = [event_count r]"
    by (auto simp: Repetition_init_def split: if_splits)
qed

theorem Repetition_init_iff_witness:
  "(\<exists>r. Repetition_init Pulse_zero \<lparr>shape = [2], elems = [1, 1]\<rparr>
           \<lparr>shape = [2, 3], elems = [1, 0, 0, 1, 0, 0]\<rparr> \<lparr>shape = [2], elems = [0, 0]\<rparr>
           \<lparr>shape = [2], elems = [0, 1]\<rparr> = Inr r)
   \<and> Repetition_init Pulse_zero \<lparr>shape = [2], elems = [1, 1]\<rparr>
           \<lparr>shape = [3, 2], elems = [1, 0, 0, 1, 0, 0]\<rparr> \<lparr>shape = [2], elems = [0, 0]\<rparr>
           \<lparr>shape = [2], elems = [0, 1]\<rparr> = Inl ValueError"
proof -
  note a = Repetition_init_iff [of Pulse_zero "\<lparr>shape = [2], elems = [1, 1]\<rparr>"
           "\<lparr>shape = [2, 3], elems = [1, 0, 0, 1, 0, 0]\<rparr>" "\<lparr>shape = [2], elems = [0, 0]\<rparr>"
           "\<lparr>shape = [2], elems = [0, 1]\<rparr>"]
  note b = Repetition_init_iff [of Pulse_zero "\<lparr>shape = [2], elems = [1, 1]\<rparr>"
           "\<lparr>shape = [3, 2], elems = [1, 0, 0, 1, 0, 0]\<rparr>" "\<lparr>shape = [2], elems = [0, 0]\<rparr>"
           "\<lparr>shape = [2], elems = [0, 1]\<rparr>"]
  have "\<exists>r. Repetition_init Pulse_zero \<lparr>shape = [2], elems = [1, 1]\<rparr>
           \<lparr>shape = [2, 3], elems = [1, 0, 0, 1, 0, 0]\<rparr> \<lparr>shape = [2], elems = [0, 0]\<rparr>
           \<lparr>shape = [2], elems = [0, 1]\<rparr> = Inr r"
    using a by simp
  moreover have "Repetition_init Pulse_zero \<lparr>shape = [2], elems = [1, 1]\<rparr>
           \<lparr>shape = [3, 2], elems = [1, 0, 0, 1, 0, 0]\<rparr> \<lparr>shape = [2], elems = [0, 0]\<rparr>
           \<lparr>shape = [2], elems = [0, 1]\<rparr> = Inl ValueError"
    using b by auto
  ultimately show ?thesis by blast
qed

section \<open>Queries on a Sequence without repetitions\<close>

text \<open>
  C10. On a Sequence without repetitions \<^verbatim>\<open>get_full_kspace()\<close> and \<^verbatim>\<open>get_kspace()\<close>
  do not return an empty trajectory: reading \<^verbatim>\<open>self.device\<close> indexes element 0 of
  the empty list and raises \<^verbatim>\<open>IndexError\<close>.
\<close>

theorem empty_sequence_kspace_fails:
  "get_full_kspace [] = Inl IndexError \<and> get_kspace [] = Inl IndexError"
  by (simp add: get_kspace_def get_full_kspace_def Sequence_device_def)

section \<open>Evaluating the queries on concrete sequences\<close>

lemmas kspace_eval_defs = get_kspace_def get_full_kspace_def Sequence_device_def rep_of_def
  index_all_None_def torch_cat_dim1_def torch_cumsum_dim0_def torch_add_broadcast_def
  index_last_row_def tensor_gt0_def tensor_ne0_def tensor_eq_def index_mask_rows_def index_mask_def
  torch_cat_dim0_def torch_zeros_def torch_neg_def tensor_rows_def dim_size_def ndim_def
  cumsum_rows_def get_contrast_mask_def Pulse_init_def

lemmas chain_eval_defs = chain_def Sequence_clone_def Repetition_clone_def Pulse_clone_def
  scalar_clone_def Repetition_init_def numel_def tensor_clone_def Sequence_shift_contrasts_def
  Repetition_shift_contrasts_def masked_add_gt0_def wrap_int32_def Sequence_get_contrasts_def
  Repetition_get_contrasts_def py_max_def rep_of_def Pulse_init_def

text \<open>
  C3. The claim: the mask of \<^verbatim>\<open>get_contrast_mask\<close> has the length of
  \<^verbatim>\<open>get_kspace()\<close>'s output, also when some \<open>adc_usage\<close> is negative. On the code the
  mask keeps the entries with \<open>adc_usage \<noteq> 0\<close> and the trajectory keeps the events
  with \<open>adc_usage > 0\<close>: for one repetition with \<open>adc_usage = [-1, 1]\<close> the trajectory has
  one row and the mask two entries.
\<close>

theorem contrast_mask_length_mismatch:
  "get_kspace [rep_of EXCIT [1, 1] [1, 0, 0, 1, 0, 0] [- 1, 1]]
     = Inr \<lparr>shape = [1, 4], elems = [2, 0, 0, 2]\<rparr>
   \<and> get_contrast_mask [rep_of EXCIT [1, 1] [1, 0, 0, 1, 0, 0] [- 1, 1]] 1
     = Inr \<lparr>shape = [2], elems = [False, True]\<rparr>"
  by (simp add: kspace_eval_defs eval_nat_numeral)

section \<open>chain\<close>

text \<open>
  C5. The docstring's example holds on the code: chaining a sequence with contrasts
  \<open>{1, 3}\<close> and one with contrast \<open>{2}\<close> gives contrasts \<open>{1, 3, 5}\<close>. The contrasts of
  distinct chained sequences can collide all the same: \<^verbatim>\<open>get_contrasts()\<close> lists the
  non-positive tags too, so after a sequence that measures nothing (all tags 0) the
  offset is \<open>max [0] = 0\<close>, and the next sequence is not shifted. Chaining sequences
  with contrasts \<open>{1}\<close>, \<open>{0}\<close>, \<open>{1}\<close> leaves the third sequence's contrast at 1, the
  contrast of the first.
\<close>

theorem chain_contrast_collision:
  "map_sum id Sequence_get_contrasts
     (chain [[rep_of EXCIT [1, 1] [0, 0, 0, 0, 0, 0] [1, 3]], [rep_of EXCIT [1] [0, 0, 0] [2]]] False)
     = Inr [1, 3, 5]
   \<and> chain [[rep_of EXCIT [1] [0, 0, 0] [1]], [rep_of EXCIT [1] [0, 0, 0] [0]],
            [rep_of EXCIT [1] [0, 0, 0] [1]]] False
     = Inr [rep_of EXCIT [1] [0, 0, 0] [1], rep_of EXCIT [1] [0, 0, 0] [0],
            rep_of EXCIT [1] [0, 0, 0] [1]]"
  by (simp add: chain_eval_defs)

lemma py_max_ValueError_iff: "py_max xs = Inl ValueError \<longleftrightarrow> xs = []"
  by (simp add: py_max_def split: list.splits)

lemma chain_loop_empty_first:
  "chain_loop False combined off ([] # post) = Inl ValueError"
  by (simp add: Sequence_clone_def Sequence_shift_contrasts_def Sequence_get_contrasts_def py_max_def)

lemma chain_loop_empty_never_returns:
  "chain_loop False combined off (pre @ [] # post) \<noteq> Inr r"
proof (induction pre arbitrary: combined off)
  case Nil
  show ?case unfolding append_Nil chain_loop_empty_first by simp
next
  case (Cons q pre)
  show ?case
    using Cons.IH by (simp add: Let_def split: sum.splits)
qed

lemma map_err_Inr_length: "map_err f xs = Inr ys \<Longrightarrow> length ys = length xs"
  by (induction xs arbitrary: ys) (auto split: sum.splits)

lemma map_err_Inr_nth:
  "map_err f xs = Inr ys \<Longrightarrow> i < length xs \<Longrightarrow> f (xs ! i) = Inr (ys ! i)"
proof (induction xs arbitrary: ys i)
  case Nil then show ?case by simp
next
  case (Cons x xs)
  then show ?case by (cases i) (auto split: sum.splits)
qed

lemma Repetition_clone_Inr:
  assumes "Repetition_clone r = Inr r'"
  shows "adc_usage r' = tensor_clone (adc_usage r)" "shape (adc_usage r) = [numel (event_time r)]"
    "numel (event_time r) \<noteq> 0"
  using assms
  by (auto simp: Repetition_clone_def Repetition_init_def tensor_clone_def numel_def split: sum.splits if_splits)

lemma Sequence_get_contrasts_Nil_iff:
  "Sequence_get_contrasts s = [] \<longleftrightarrow> (\<forall>r\<in>set s. elems (adc_usage r) = [])"
proof -
  have "Sequence_get_contrasts s = [] \<longleftrightarrow> set (Sequence_get_contrasts s) = {}" by simp
  also have "\<dots> \<longleftrightarrow> (\<forall>r\<in>set s. elems (adc_usage r) = [])"
    by (auto simp: Sequence_get_contrasts_def Repetition_get_contrasts_def)
  finally show ?thesis .
qed

lemma clone_contrasts_empty_iff:
  assumes wf: "\<forall>rep\<in>set s. tensor_wf (adc_usage rep)" and cl: "Sequence_clone s = Inr t"
  shows "py_max (Sequence_get_contrasts (Sequence_shift_contrasts t off)) = Inl ValueError \<longleftrightarrow> s = []"
proof (cases s)
  case Nil
  with cl show ?thesis
    by (simp add: Sequence_clone_def Sequence_shift_contrasts_def Sequence_get_contrasts_def py_max_def)
next
  case (Cons r rest)
  from cl have len: "length t = length s"
    by (simp add: Sequence_clone_def map_err_Inr_length)
  from cl Cons have c0: "Repetition_clone r = Inr (t ! 0)"
    using map_err_Inr_nth [of Repetition_clone s t 0] by (simp add: Sequence_clone_def)
  from wf Cons have "tensor_wf (adc_usage r)" by simp
  with Repetition_clone_Inr [OF c0] have "elems (adc_usage (t ! 0)) \<noteq> []"
    by (auto simp: tensor_wf_def tensor_clone_def)
  moreover from len Cons have "t ! 0 \<in> set t" by (cases t) auto
  ultimately have "\<exists>r'\<in>set (Sequence_shift_contrasts t off). elems (adc_usage r') \<noteq> []"
    by (auto simp: Sequence_shift_contrasts_def Repetition_shift_contrasts_def masked_add_gt0_def)
  then have "Sequence_get_contrasts (Sequence_shift_contrasts t off) \<noteq> []"
    by (simp add: Sequence_get_contrasts_Nil_iff)
  with Cons show ?thesis by (simp add: py_max_ValueError_iff)
qed

text \<open>
  C6, as the code has it. When the loop of \<^verbatim>\<open>chain\<close> (without \<open>oneshot\<close>) reaches a
  sequence without repetitions, \<^verbatim>\<open>max\<close> of the empty contrast list raises
  \<^verbatim>\<open>ValueError\<close>, whatever the running offset; so a call with such a sequence among
  its arguments never returns a combined sequence. A sequence without repetitions is the
  only one whose clone has an empty contrast list: the tags that are not positive are
  listed too.
\<close>

theorem chain_empty_sequence_raises:
  "chain_loop False combined off ([] # post) = Inl ValueError
   \<and> (\<forall>r. chain (pre @ [] # post) False \<noteq> Inr r)
   \<and> ((\<forall>rep\<in>set s. tensor_wf (adc_usage rep)) \<longrightarrow> Sequence_clone s = Inr t \<longrightarrow>
        (py_max (Sequence_get_contrasts (Sequence_shift_contrasts t off)) = Inl ValueError \<longleftrightarrow> s = []))"
  using chain_loop_empty_first [of combined off post]
    chain_loop_empty_never_returns [of "[]" 0 pre post]
    clone_contrasts_empty_iff [of s t off]
  by (simp add: chain_def)

theorem chain_empty_sequence_raises_witness:
  "chain_loop False [] 3 ([] # [[rep_of EXCIT [1] [0, 0, 0] [1]]]) = Inl ValueError
   \<and> (\<forall>r. chain ([[rep_of EXCIT [1] [0, 0, 0] [1]]] @ [] # [[rep_of EXCIT [1] [0, 0, 0] [1]]]) False \<noteq> Inr r)
   \<and> tensor_wf (adc_usage (rep_of EXCIT [1] [0, 0, 0] [0]))
   \<and> Sequence_clone [rep_of EXCIT [1] [0, 0, 0] [0]] = Inr [rep_of EXCIT [1] [0, 0, 0] [0]]
   \<and> py_max (Sequence_get_contrasts (Sequence_shift_contrasts [rep_of EXCIT [1] [0, 0, 0] [0]] 3))
       \<noteq> Inl ValueError"
proof -
  note t = chain_empty_sequence_raises [of "[]" 3 "[[rep_of EXCIT [1] [0, 0, 0] [1]]]"
    "[[rep_of EXCIT [1] [0, 0, 0] [1]]]" "[rep_of EXCIT [1] [0, 0, 0] [0]]"
    "[rep_of EXCIT [1] [0, 0, 0] [0]]"]
  have wf: "tensor_wf (adc_usage (rep_of EXCIT [1] [0, 0, 0] [0]))"
    by (simp add: tensor_wf_def rep_of_def)
  have cl: "Sequence_clone [rep_of EXCIT [1] [0, 0, 0] [0]] = Inr [rep_of EXCIT [1] [0, 0, 0] [0]]"
    by (simp add: chain_eval_defs)
  from t wf cl show ?thesis by simp
qed

text \<open>
  C6 as stated fails: a sequence without repetitions is not skipped, the call raises.
\<close>

theorem chain_empty_sequence_counterexample:
  "chain [[rep_of EXCIT [1] [0, 0, 0] [1]], [], [rep_of EXCIT [1] [0, 0, 0] [1]]] False
     = Inl ValueError"
  by (simp add: chain_eval_defs)

section \<open>The trajectory of a Sequence\<close>

subsection \<open>Rows of a tensor, sums of positions\<close>

lemma length_rows_of [simp]: "length (rows_of n w xs) = n"
  by (induction n arbitrary: xs) auto

lemma rows_of_concat:
  "\<forall>r\<in>set xss. length r = w \<Longrightarrow> rows_of (length xss) w (concat xss) = xss"
  by (induction xss) auto

lemma rows_of_eq_map:
  "rows_of n w xs = map (\<lambda>i. take w (drop (w * i) xs)) [0..<n]"
proof (induction n arbitrary: xs)
  case 0
  show ?case by simp
next
  case (Suc n)
  have "map (\<lambda>i. take w (drop (w * i) xs)) [0..<Suc n]
      = take w xs # map (\<lambda>i. take w (drop (w * Suc i) xs)) [0..<n]"
    by (simp only: map_upt_Suc) simp
  also have "map (\<lambda>i. take w (drop (w * Suc i) xs)) [0..<n]
      = map (\<lambda>i. take w (drop (w * i) (drop w xs))) [0..<n]"
    by (simp add: add.commute)
  finally show ?case using Suc.IH [of "drop w xs"] by simp
qed

lemma rows_of_width:
  "length xs = n * w \<Longrightarrow> r \<in> set (rows_of n w xs) \<Longrightarrow> length r = w"
proof (induction n arbitrary: xs)
  case 0 then show ?case by simp
next
  case (Suc n)
  from Suc.prems(1) have len: "length (drop w xs) = n * w" by simp
  from Suc.prems(2) have "r = take w xs \<or> r \<in> set (rows_of n w (drop w xs))" by simp
  then show ?case
  proof
    assume "r = take w xs"
    with Suc.prems(1) show ?thesis by simp
  next
    assume "r \<in> set (rows_of n w (drop w xs))"
    with Suc.IH [OF len] show ?thesis .
  qed
qed

lemma rows_of_one: "length xs = n \<Longrightarrow> rows_of n 1 xs = map (\<lambda>x. [x]) xs"
proof (induction n arbitrary: xs)
  case 0 then show ?case by simp
next
  case (Suc n)
  then obtain y ys where "xs = y # ys" by (cases xs) auto
  with Suc show ?case by simp
qed


lemma length_spec_vadd [simp]: "length (spec_vadd a b) = min (length a) (length b)"
  by (simp add: spec_vadd_def)

lemma spec_vadd_assoc: "spec_vadd (spec_vadd a b) c = spec_vadd a (spec_vadd b c)"
proof (induction a arbitrary: b c)
  case Nil
  show ?case by (simp add: spec_vadd_def)
next
  case (Cons x a)
  show ?case
  proof (cases b)
    case Nil
    then show ?thesis by (simp add: spec_vadd_def)
  next
    case b: (Cons y b')
    show ?thesis
    proof (cases c)
      case Nil
      then show ?thesis by (simp add: spec_vadd_def)
    next
      case (Cons z c')
      with b Cons.IH [of b' c'] show ?thesis by (simp add: spec_vadd_def)
    qed
  qed
qed

lemma map2_add_replicate_zero:
  "length a \<le> n \<Longrightarrow> map2 (+) a (replicate n (0::real)) = a"
proof (induction a arbitrary: n)
  case Nil
  show ?case by simp
next
  case (Cons x a)
  then obtain m where "n = Suc m" by (cases n) auto
  with Cons show ?case by simp
qed

lemma spec_vadd_zero: "length a = 4 \<Longrightarrow> spec_vadd a [0, 0, 0, 0] = a"
proof -
  assume "length a = 4"
  then have "map2 (+) a (replicate 4 (0::real)) = a"
    by (intro map2_add_replicate_zero) simp
  moreover have "replicate 4 (0::real) = [0, 0, 0, 0]"
    by (simp add: eval_nat_numeral)
  ultimately show ?thesis by (simp add: spec_vadd_def)
qed


lemma length_spec_vsum:
  "\<forall>d\<in>set ds. length d = 4 \<Longrightarrow> length (spec_vsum ds) = 4"
  by (induction ds) (auto simp: spec_vsum_def)

lemma spec_vsum_Cons: "spec_vsum (d # ds) = spec_vadd d (spec_vsum ds)"
  by (simp add: spec_vsum_def)

lemma cumsum_from_eq:
  "length acc = 4 \<Longrightarrow> \<forall>d\<in>set rs. length d = 4 \<Longrightarrow>
   cumsum_from acc rs = map (\<lambda>i. spec_vadd acc (spec_vsum (take (Suc i) rs))) [0..<length rs]"
proof (induction rs arbitrary: acc)
  case Nil
  show ?case by simp
next
  case (Cons r rs)
  have r4: "length r = 4" and rs4: "\<forall>d\<in>set rs. length d = 4"
    using Cons.prems(2) by simp_all
  have step: "cumsum_from (spec_vadd acc r) rs
      = map (\<lambda>i. spec_vadd (spec_vadd acc r) (spec_vsum (take (Suc i) rs))) [0..<length rs]"
    using Cons.IH [of "spec_vadd acc r"] Cons.prems(1) r4 rs4 by simp
  have head: "spec_vadd acc (spec_vsum [r]) = spec_vadd acc r"
    using r4 by (simp add: spec_vsum_Cons spec_vsum_def spec_vadd_zero)
  have tail: "spec_vadd acc (spec_vsum (r # take (Suc i) rs))
      = spec_vadd (spec_vadd acc r) (spec_vsum (take (Suc i) rs))" for i
    by (simp add: spec_vsum_Cons spec_vadd_assoc)
  have "map (\<lambda>i. spec_vadd acc (spec_vsum (take (Suc i) (r # rs)))) [0..<length (r # rs)]
      = spec_vadd acc (spec_vsum [r])
        # map (\<lambda>i. spec_vadd acc (spec_vsum (r # take (Suc i) rs))) [0..<length rs]"
    by (simp only: length_Cons map_upt_Suc) simp
  also have "\<dots> = spec_vadd acc r
        # map (\<lambda>i. spec_vadd (spec_vadd acc r) (spec_vsum (take (Suc i) rs))) [0..<length rs]"
    by (simp only: head tail)
  finally have rhs: "map (\<lambda>i. spec_vadd acc (spec_vsum (take (Suc i) (r # rs)))) [0..<length (r # rs)]
      = spec_vadd acc r
        # map (\<lambda>i. spec_vadd (spec_vadd acc r) (spec_vsum (take (Suc i) rs))) [0..<length rs]" .
  have lhs: "cumsum_from acc (r # rs) = spec_vadd acc r # cumsum_from (spec_vadd acc r) rs"
    by (simp add: spec_vadd_def Let_def)
  show ?case unfolding lhs step rhs ..
qed

lemma cumsum_rows_eq:
  assumes "\<forall>d\<in>set ds. length d = 4"
  shows "cumsum_rows ds = spec_cumsum ds"
proof (cases ds)
  case Nil
  then show ?thesis by (simp add: cumsum_rows_def spec_cumsum_def)
next
  case (Cons r rs)
  with assms have r4: "length r = 4" and rs4: "\<forall>d\<in>set rs. length d = 4" by simp_all
  have "spec_cumsum (r # rs)
      = spec_vsum [r] # map (\<lambda>i. spec_vsum (r # take (Suc i) rs)) [0..<length rs]"
    unfolding spec_cumsum_def by (simp only: length_Cons map_upt_Suc) simp
  also have "\<dots> = r # map (\<lambda>i. spec_vadd r (spec_vsum (take (Suc i) rs))) [0..<length rs]"
    using r4 by (simp add: spec_vsum_Cons spec_vsum_def spec_vadd_zero)
  also have "\<dots> = r # cumsum_from r rs"
    using cumsum_from_eq [OF r4 rs4] by simp
  finally show ?thesis using Cons by (simp add: cumsum_rows_def)
qed

lemma length_spec_cumsum [simp]: "length (spec_cumsum ds) = length ds"
  by (simp add: spec_cumsum_def)

lemma spec_cumsum_width:
  assumes "\<forall>d\<in>set ds. length d = 4" and "c \<in> set (spec_cumsum ds)"
  shows "length c = 4"
proof -
  from assms(2) obtain i where "i < length ds" and c: "c = spec_vsum (take (Suc i) ds)"
    by (auto simp: spec_cumsum_def)
  from assms(1) have "\<forall>d\<in>set (take (Suc i) ds). length d = 4"
    by (meson in_set_takeD)
  with c show ?thesis by (simp add: length_spec_vsum)
qed


lemma Repetition_valid_lengths:
  assumes "Repetition_valid r"
  shows "length (elems (event_time r)) = event_count r"
    and "length (elems (gradm r)) = event_count r * 3"
    and "length (elems (adc_usage r)) = event_count r"
    and "1 \<le> event_count r"
  using assms by (simp_all add: Repetition_valid_def tensor_wf_def)

lemma length_spec_deltas [simp]: "length (spec_deltas r) = event_count r"
  by (simp add: spec_deltas_def)

lemma spec_deltas_width:
  assumes "Repetition_valid r" and "d \<in> set (spec_deltas r)"
  shows "length d = 4"
proof -
  from assms(2) obtain i where i: "i < event_count r"
    and d: "d = event_gradm r i @ [event_duration r i]"
    by (auto simp: spec_deltas_def)
  from i have "3 * i + 3 \<le> event_count r * 3" by simp
  then have "length (event_gradm r i) = 3"
    using Repetition_valid_lengths(2) [OF assms(1)] by (simp add: event_gradm_def)
  with d show ?thesis by simp
qed

lemma cat_rows_eq_spec_deltas:
  assumes "Repetition_valid r"
  shows "map2 (@) (rows_of (event_count r) 3 (elems (gradm r)))
                  (rows_of (event_count r) 1 (elems (event_time r))) = spec_deltas r"
proof -
  let ?n = "event_count r"
  have et: "rows_of ?n 1 (elems (event_time r)) = map (\<lambda>i. [event_duration r i]) [0..<?n]"
  proof -
    have a: "rows_of ?n 1 (elems (event_time r)) = map (\<lambda>x. [x]) (elems (event_time r))"
      using Repetition_valid_lengths(1) [OF assms] by (rule rows_of_one)
    have b: "map (\<lambda>x. [x]) (elems (event_time r))
        = map (\<lambda>x. [x]) (map (\<lambda>i. elems (event_time r) ! i) [0..<?n])"
      using Repetition_valid_lengths(1) [OF assms] by (metis map_nth)
    show ?thesis unfolding a b by (simp add: event_duration_def o_def)
  qed
  have g: "rows_of ?n 3 (elems (gradm r)) = map (event_gradm r) [0..<?n]"
    by (simp add: rows_of_eq_map event_gradm_def)
  show ?thesis
    unfolding et g spec_deltas_def by (simp add: zip_map_map zip_same_conv_map)
qed


lemma spec_vadd_fun: "spec_vadd k = (\<lambda>row. map2 (+) k row)"
  by (rule ext) (simp add: spec_vadd_def)

lemma length_spec_rep_traj [simp]: "length (spec_rep_traj k r) = event_count r"
  by (simp add: spec_rep_traj_def)

lemma spec_rep_traj_width:
  assumes "Repetition_valid r" and "length k = 4" and "p \<in> set (spec_rep_traj k r)"
  shows "length p = 4"
proof -
  from assms(3) obtain c where "c \<in> set (spec_cumsum (spec_deltas r))" and p: "p = spec_vadd k c"
    by (auto simp: spec_rep_traj_def)
  then have "length c = 4"
    using spec_cumsum_width [of "spec_deltas r" c] spec_deltas_width [OF assms(1)] by blast
  with p assms(2) show ?thesis by simp
qed

lemma spec_rep_traj_nonempty: "Repetition_valid r \<Longrightarrow> spec_rep_traj k r \<noteq> []"
  using Repetition_valid_lengths(4) [of r] length_spec_rep_traj [of k r] by force

lemma length_last_spec_rep_traj:
  "Repetition_valid r \<Longrightarrow> length k = 4 \<Longrightarrow> length (last (spec_rep_traj k r)) = 4"
  using spec_rep_traj_width [of r k "last (spec_rep_traj k r)"] spec_rep_traj_nonempty [of r k]
  by simp

subsection \<open>The body of the loop on a valid repetition, operation by operation\<close>

lemma body_index_all_None:
  "Repetition_valid r \<Longrightarrow>
   index_all_None (event_time r) = Inr \<lparr>shape = [event_count r, 1], elems = elems (event_time r)\<rparr>"
  by (simp add: index_all_None_def Repetition_valid_def)

lemma body_torch_cat_dim1:
  assumes "Repetition_valid r"
  shows "torch_cat_dim1 (gradm r) \<lparr>shape = [event_count r, 1], elems = elems (event_time r)\<rparr>
     = Inr (tensor_of_rows 4 (spec_deltas r))"
proof -
  have sh: "shape (gradm r) = [event_count r, 3]"
    using assms by (simp add: Repetition_valid_def)
  show ?thesis
    using cat_rows_eq_spec_deltas [OF assms]
    by (simp add: torch_cat_dim1_def ndim_def dim_size_def tensor_rows_def sh tensor_of_rows_def)
qed

lemma tensor_rows_tensor_of_rows:
  "\<forall>d\<in>set rows. length d = w \<Longrightarrow> tensor_rows (tensor_of_rows w rows) = rows"
  by (simp add: tensor_rows_def tensor_of_rows_def dim_size_def rows_of_concat)

lemma body_torch_cumsum_dim0:
  assumes "Repetition_valid r"
  shows "torch_cumsum_dim0 (tensor_of_rows 4 (spec_deltas r))
     = tensor_of_rows 4 (spec_cumsum (spec_deltas r))"
proof -
  have w: "\<forall>d\<in>set (spec_deltas r). length d = 4"
    using spec_deltas_width [OF assms] by blast
  show ?thesis
    unfolding torch_cumsum_dim0_def tensor_rows_tensor_of_rows [OF w] cumsum_rows_eq [OF w]
    by (simp add: tensor_of_rows_def)
qed

lemma body_torch_add_broadcast:
  assumes "Repetition_valid r" and "length k = 4"
  shows "torch_add_broadcast \<lparr>shape = [4], elems = k\<rparr> (tensor_of_rows 4 (spec_cumsum (spec_deltas r)))
     = Inr (tensor_of_rows 4 (spec_rep_traj k r))"
proof -
  have w: "\<forall>c\<in>set (spec_cumsum (spec_deltas r)). length c = 4"
    using spec_cumsum_width [of "spec_deltas r"] spec_deltas_width [OF assms(1)] by blast
  have rows: "tensor_rows (tensor_of_rows 4 (spec_cumsum (spec_deltas r))) = spec_cumsum (spec_deltas r)"
    by (rule tensor_rows_tensor_of_rows [OF w])
  show ?thesis
    unfolding torch_add_broadcast_def rows
    by (simp add: ndim_def dim_size_def tensor_of_rows_def spec_rep_traj_def spec_vadd_fun)
qed

lemma body_index_last_row:
  assumes "Repetition_valid r" and "length k = 4"
  shows "index_last_row (tensor_of_rows 4 (spec_rep_traj k r))
     = Inr \<lparr>shape = [4], elems = last (spec_rep_traj k r)\<rparr>"
proof -
  have w: "\<forall>p\<in>set (spec_rep_traj k r). length p = 4"
    using spec_rep_traj_width [OF assms] by blast
  have rows: "tensor_rows (tensor_of_rows 4 (spec_rep_traj k r)) = spec_rep_traj k r"
    by (rule tensor_rows_tensor_of_rows [OF w])
  have n: "event_count r \<noteq> 0"
    using Repetition_valid_lengths(4) [OF assms(1)] by simp
  show ?thesis
    unfolding index_last_row_def rows
    using n by (simp add: ndim_def dim_size_def tensor_of_rows_def)
qed

lemma get_full_kspace_loop_eq:
  "list_all Repetition_valid reps \<Longrightarrow> length k = 4 \<Longrightarrow> length st = 4 \<Longrightarrow>
   get_full_kspace_loop \<lparr>shape = [4], elems = k\<rparr> \<lparr>shape = [4], elems = st\<rparr> reps
     = Inr (map (tensor_of_rows 4) (spec_trajectories k st reps))"
proof (induction reps arbitrary: k st)
  case Nil
  show ?case by simp
next
  case (Cons r reps)
  from Cons.prems(1) have v: "Repetition_valid r" and vs: "list_all Repetition_valid reps"
    by simp_all
  obtain k1 s1 where adj: "spec_adjust (usage (pulse r)) (k, st) = (k1, s1)"
    by (cases "spec_adjust (usage (pulse r)) (k, st)")
  have len: "length k1 = 4" "length s1 = 4"
    using adj Cons.prems(2,3) by (cases "usage (pulse r)"; auto)+
  have code_adj:
    "(if usage (pulse r) = EXCIT then (\<lparr>shape = [4], elems = st\<rparr>, \<lparr>shape = [4], elems = st\<rparr>)
      else if usage (pulse r) = REFOC
        then (torch_neg \<lparr>shape = [4], elems = k\<rparr>, \<lparr>shape = [4], elems = st\<rparr>)
      else if usage (pulse r) = STORE then (\<lparr>shape = [4], elems = k\<rparr>, \<lparr>shape = [4], elems = k\<rparr>)
      else (\<lparr>shape = [4], elems = k\<rparr>, \<lparr>shape = [4], elems = st\<rparr>))
     = (\<lparr>shape = [4], elems = k1\<rparr>, \<lparr>shape = [4], elems = s1\<rparr>)"
    using adj by (cases "usage (pulse r)") (auto simp: torch_neg_def)
  have l4: "length (last (spec_rep_traj k1 r)) = 4"
    by (rule length_last_spec_rep_traj [OF v len(1)])
  have IH: "get_full_kspace_loop \<lparr>shape = [4], elems = last (spec_rep_traj k1 r)\<rparr>
        \<lparr>shape = [4], elems = s1\<rparr> reps
      = Inr (map (tensor_of_rows 4) (spec_trajectories (last (spec_rep_traj k1 r)) s1 reps))"
    by (rule Cons.IH [OF vs l4 len(2)])
  show ?case
    unfolding get_full_kspace_loop.simps code_adj
    by (simp only: body_index_all_None [OF v] body_torch_cat_dim1 [OF v]
        body_torch_cumsum_dim0 [OF v] body_torch_add_broadcast [OF v len(1)]
        body_index_last_row [OF v len(1)] IH adj sum.case prod.case Let_def
        spec_trajectories.simps list.map)
qed

lemma get_full_kspace_eq:
  assumes "s \<noteq> []" and "list_all Repetition_valid s"
  shows "get_full_kspace s = Inr (map (tensor_of_rows 4) (spec_full_kspace s))"
proof -
  have z: "(torch_zeros [4] :: real tensor) = \<lparr>shape = [4], elems = [0, 0, 0, 0]\<rparr>"
    by (simp add: torch_zeros_def eval_nat_numeral)
  from assms(1) have d: "Sequence_device s = Inr Device"
    by (cases s) (simp_all add: Sequence_device_def Repetition_device_def)
  show ?thesis
    unfolding get_full_kspace_def d z spec_full_kspace_def
    using get_full_kspace_loop_eq [OF assms(2), of "[0, 0, 0, 0]" "[0, 0, 0, 0]"] by simp
qed

lemmas spec_eval_defs = spec_full_kspace_def spec_rep_traj_def spec_cumsum_def spec_deltas_def
  spec_vsum_def spec_vadd_def event_gradm_def event_duration_def rep_of_def Pulse_init_def
  tensor_of_rows_def

lemma length_spec_trajectories [simp]: "length (spec_trajectories k st reps) = length reps"
  by (induction reps arbitrary: k st) (auto simp: Let_def split: prod.splits)

lemma rep_of_valid:
  "et \<noteq> [] \<Longrightarrow> length g = length et * 3 \<Longrightarrow> length us = length et \<Longrightarrow>
   Repetition_valid (rep_of u et g us)"
  by (cases et) (simp_all add: Repetition_valid_def rep_of_def tensor_wf_def)

lemma spec_full_kspace_example:
  "spec_full_kspace [rep_of EXCIT [1, 1] [1, 0, 0, 1, 0, 0] [1, 1], rep_of REFOC [2] [0, 1, 0] [1]]
     = [[[1, 0, 0, 1], [2, 0, 0, 2]], [[- 2, 1, 0, 0]]]"
  by (simp add: spec_eval_defs eval_nat_numeral upt_rec)

text \<open>
  C1, as the code has it. On a Sequence with at least one repetition, all of them as the
  constructor leaves them, \<^verbatim>\<open>get_full_kspace()\<close> returns one trajectory per
  repetition, the ones of the reference recurrence: from \<open>k_pos = stored = (0,0,0,0)\<close>,
  each repetition first adjusts the state by its pulse usage, its trajectory is \<open>k_pos\<close>
  plus the inclusive cumulative sum of its events' gradient moment and duration, and
  \<open>k_pos\<close> moves to the last entry. One repetition with \<open>event_time = [1, 1]\<close>,
  \<open>gradm = [[1,0,0],[1,0,0]]\<close> and an EXCIT pulse has the trajectory
  \<open>[[1,0,0,1],[2,0,0,2]]\<close>.
\<close>

theorem get_full_kspace_reference:
  "(s \<noteq> [] \<and> list_all Repetition_valid s \<longrightarrow>
      get_full_kspace s = Inr (map (tensor_of_rows 4) (spec_full_kspace s))
      \<and> length (spec_full_kspace s) = length s)
   \<and> get_full_kspace [rep_of EXCIT [1, 1] [1, 0, 0, 1, 0, 0] us]
       = Inr [tensor_of_rows 4 [[1, 0, 0, 1], [2, 0, 0, 2]]]"
proof (intro conjI impI)
  assume "s \<noteq> [] \<and> list_all Repetition_valid s"
  then show "get_full_kspace s = Inr (map (tensor_of_rows 4) (spec_full_kspace s))"
    using get_full_kspace_eq by blast
next
  show "length (spec_full_kspace s) = length s"
    by (simp add: spec_full_kspace_def)
next
  show "get_full_kspace [rep_of EXCIT [1, 1] [1, 0, 0, 1, 0, 0] us]
       = Inr [tensor_of_rows 4 [[1, 0, 0, 1], [2, 0, 0, 2]]]"
    by (simp add: kspace_eval_defs tensor_of_rows_def eval_nat_numeral)
qed

theorem get_full_kspace_reference_witness:
  "[rep_of EXCIT [1, 1] [1, 0, 0, 1, 0, 0] [1, 1], rep_of REFOC [2] [0, 1, 0] [1]] \<noteq> []
   \<and> list_all Repetition_valid
        [rep_of EXCIT [1, 1] [1, 0, 0, 1, 0, 0] [1, 1], rep_of REFOC [2] [0, 1, 0] [1]]
   \<and> get_full_kspace [rep_of EXCIT [1, 1] [1, 0, 0, 1, 0, 0] [1, 1], rep_of REFOC [2] [0, 1, 0] [1]]
       = Inr [tensor_of_rows 4 [[1, 0, 0, 1], [2, 0, 0, 2]], tensor_of_rows 4 [[- 2, 1, 0, 0]]]"
proof -
  let ?s = "[rep_of EXCIT [1, 1] [1, 0, 0, 1, 0, 0] [1, 1], rep_of REFOC [2] [0, 1, 0] [1]]"
  have v: "list_all Repetition_valid ?s"
    by (simp add: rep_of_valid)
  have "get_full_kspace ?s = Inr (map (tensor_of_rows 4) (spec_full_kspace ?s))"
    using get_full_kspace_reference [of ?s] v by simp
  then show ?thesis
    using v by (simp add: spec_full_kspace_example)
qed

text \<open>
  C1 as stated, for every Sequence, fails on the Sequence without repetitions: the
  reference recurrence gives the empty list of trajectories there, and
  \<^verbatim>\<open>get_full_kspace()\<close> raises \<^verbatim>\<open>IndexError\<close>.
\<close>

theorem get_full_kspace_reference_counterexample:
  "spec_full_kspace [] = []
   \<and> get_full_kspace [] = Inl IndexError
   \<and> get_full_kspace [] \<noteq> Inr (map (tensor_of_rows 4) (spec_full_kspace []))"
  by (simp add: spec_full_kspace_def get_full_kspace_def Sequence_device_def)

section \<open>The measured trajectory\<close>

lemma zip_conv_nth:
  "length xs = length bs \<Longrightarrow> zip xs bs = map (\<lambda>i. (xs ! i, bs ! i)) [0..<length xs]"
  by (rule nth_equalityI) simp_all

lemma select_by_mask:
  assumes "length xs = length bs"
  shows "map fst (filter snd (zip xs bs)) = map (\<lambda>i. xs ! i) (filter (\<lambda>i. bs ! i) [0..<length xs])"
  unfolding zip_conv_nth [OF assms] by (simp add: filter_map o_def)

lemma length_filter_nth:
  "length (filter (\<lambda>i. P (xs ! i)) [0..<length xs]) = length (filter P xs)"
proof -
  have "filter P xs = filter P (map (\<lambda>i. xs ! i) [0..<length xs])"
    by (simp add: map_nth)
  also have "length \<dots> = length (filter (\<lambda>i. P (xs ! i)) [0..<length xs])"
    by (simp add: filter_map o_def)
  finally show ?thesis by simp
qed

lemma length_measured_rows:
  "Repetition_valid r \<Longrightarrow> length (measured_rows traj r) = length (filter (\<lambda>x. 0 < x) (elems (adc_usage r)))"
  using length_filter_nth [of "\<lambda>x. 0 < x" "elems (adc_usage r)"] Repetition_valid_lengths(3) [of r]
  by (simp add: measured_rows_def)

lemma measured_rows_width:
  assumes "\<forall>p\<in>set traj. length p = w" and "length traj = event_count r" and "q \<in> set (measured_rows traj r)"
  shows "length q = w"
  using assms by (auto simp: measured_rows_def)

lemma body_index_mask_rows:
  assumes v: "Repetition_valid r" and w: "\<forall>p\<in>set traj. length p = 4"
    and n: "length traj = event_count r"
  shows "index_mask_rows (tensor_of_rows 4 traj) (tensor_gt0 (adc_usage r))
     = Inr (tensor_of_rows 4 (measured_rows traj r))"
proof -
  have rows: "tensor_rows (tensor_of_rows 4 traj) = traj"
    by (rule tensor_rows_tensor_of_rows [OF w])
  have sh: "shape (adc_usage r) = [event_count r]"
    using v by (simp add: Repetition_valid_def)
  have len: "length traj = length (map (\<lambda>x. 0 < x) (elems (adc_usage r)))"
    using n Repetition_valid_lengths(3) [OF v] by simp
  have sel: "map fst (filter snd (zip traj (map (\<lambda>x. 0 < x) (elems (adc_usage r)))))
      = measured_rows traj r"
    unfolding select_by_mask [OF len] measured_rows_def
    using n Repetition_valid_lengths(3) [OF v]
    by (intro arg_cong [where f = "map _"] filter_cong) simp_all
  show ?thesis
    unfolding index_mask_rows_def rows
    by (simp add: ndim_def dim_size_def tensor_of_rows_def tensor_gt0_def sh n sel Let_def)
qed

lemma spec_trajectories_shape:
  "list_all Repetition_valid reps \<Longrightarrow> length k = 4 \<Longrightarrow> length st = 4 \<Longrightarrow>
   list_all2 (\<lambda>traj r. length traj = event_count r \<and> (\<forall>p\<in>set traj. length p = 4))
     (spec_trajectories k st reps) reps"
proof (induction reps arbitrary: k st)
  case Nil
  show ?case by simp
next
  case (Cons r reps)
  from Cons.prems(1) have v: "Repetition_valid r" and vs: "list_all Repetition_valid reps"
    by simp_all
  obtain k1 s1 where adj: "spec_adjust (usage (pulse r)) (k, st) = (k1, s1)"
    by (cases "spec_adjust (usage (pulse r)) (k, st)")
  have len: "length k1 = 4" "length s1 = 4"
    using adj Cons.prems(2,3) by (cases "usage (pulse r)"; auto)+
  have l4: "length (last (spec_rep_traj k1 r)) = 4"
    by (rule length_last_spec_rep_traj [OF v len(1)])
  have w: "\<forall>p\<in>set (spec_rep_traj k1 r). length p = 4"
    using spec_rep_traj_width [OF v len(1)] by blast
  show ?case
    using Cons.IH [OF vs l4 len(2)] w by (simp add: adj Let_def)
qed

lemma map_err_mask_rows:
  "list_all Repetition_valid reps \<Longrightarrow>
   list_all2 (\<lambda>traj r. length traj = event_count r \<and> (\<forall>p\<in>set traj. length p = 4)) trajs reps \<Longrightarrow>
   map_err (\<lambda>(shot, rep). index_mask_rows shot (tensor_gt0 (adc_usage rep)))
       (zip (map (tensor_of_rows 4) trajs) reps)
     = Inr (map (tensor_of_rows 4) (map2 measured_rows trajs reps))"
proof (induction reps arbitrary: trajs)
  case Nil
  then show ?case by simp
next
  case (Cons r reps)
  from Cons.prems(2) obtain t ts where trajs: "trajs = t # ts"
    and t: "length t = event_count r" "\<forall>p\<in>set t. length p = 4"
    and ts: "list_all2 (\<lambda>traj r. length traj = event_count r \<and> (\<forall>p\<in>set traj. length p = 4)) ts reps"
    by (auto simp: list_all2_Cons2)
  from Cons.prems(1) have v: "Repetition_valid r" and vs: "list_all Repetition_valid reps"
    by simp_all
  show ?case
    unfolding trajs
    using Cons.IH [OF vs ts] body_index_mask_rows [OF v t(2) t(1)] by simp
qed

lemma concat_map_concat: "concat (map concat xsss) = concat (concat xsss)"
  by (induction xsss) auto

lemma torch_cat_dim0_rows:
  assumes "rowss \<noteq> []"
  shows "torch_cat_dim0 (map (tensor_of_rows w) rowss) = Inr (tensor_of_rows w (concat rowss))"
proof -
  from assms obtain rs rest where r: "rowss = rs # rest" by (cases rowss) auto
  have sh: "list_all (\<lambda>u. 1 \<le> ndim u \<and> tl (shape u) = [w]) (map (tensor_of_rows w) rest)"
    by (simp add: list_all_iff ndim_def tensor_of_rows_def)
  have d0: "map (\<lambda>u. dim_size u 0) (map (tensor_of_rows w) rowss) = map length rowss"
    by (simp add: dim_size_def tensor_of_rows_def o_def)
  have el: "concat (map elems (map (tensor_of_rows w) rowss)) = concat (concat rowss)"
    by (simp add: tensor_of_rows_def o_def concat_map_concat)
  have "torch_cat_dim0 (map (tensor_of_rows w) rowss)
      = Inr \<lparr>shape = sum_list (map (\<lambda>u. dim_size u 0) (map (tensor_of_rows w) rowss)) # [w],
              elems = concat (map elems (map (tensor_of_rows w) rowss))\<rparr>"
    using sh unfolding r torch_cat_dim0_def
    by (simp add: ndim_def tensor_of_rows_def)
  then show ?thesis
    unfolding d0 el by (simp add: tensor_of_rows_def length_concat)
qed

lemma get_kspace_eq:
  assumes ne: "s \<noteq> []" and v: "list_all Repetition_valid s"
  shows "get_kspace s = Inr (tensor_of_rows 4 (concat (map2 measured_rows (spec_full_kspace s) s)))"
proof -
  have sh: "list_all2 (\<lambda>traj r. length traj = event_count r \<and> (\<forall>p\<in>set traj. length p = 4))
      (spec_full_kspace s) s"
    unfolding spec_full_kspace_def by (rule spec_trajectories_shape [OF v]) simp_all
  have parts: "map2 measured_rows (spec_full_kspace s) s \<noteq> []"
    using ne by (cases s) (simp_all add: spec_full_kspace_def Let_def split: prod.splits)
  show ?thesis
    unfolding get_kspace_def get_full_kspace_eq [OF ne v]
    by (simp only: sum.case map_err_mask_rows [OF v sh] torch_cat_dim0_rows [OF parts])
qed

lemma measured_total:
  "list_all Repetition_valid reps \<Longrightarrow> length trajs = length reps \<Longrightarrow>
   length (concat (map2 measured_rows trajs reps)) = measured_count reps"
proof (induction reps arbitrary: trajs)
  case Nil
  then show ?case by (simp add: measured_count_def)
next
  case (Cons r reps)
  then obtain t ts where "trajs = t # ts" by (cases trajs) auto
  with Cons show ?case
    by (simp add: measured_count_def length_measured_rows)
qed

lemma map_tensor_rows_of_rows:
  "list_all2 (\<lambda>traj r. length traj = event_count r \<and> (\<forall>p\<in>set traj. length p = 4)) trajs reps \<Longrightarrow>
   map2 (\<lambda>shot r. measured_rows (tensor_rows shot) r) (map (tensor_of_rows 4) trajs) reps
     = map2 measured_rows trajs reps"
proof (induction trajs reps rule: list_all2_induct)
  case Nil
  show ?case by simp
next
  case (Cons t ts r reps)
  then show ?case by (simp add: tensor_rows_tensor_of_rows)
qed

text \<open>
  C2, as the code has it. On a Sequence with at least one repetition, all of them as the
  constructor leaves them, \<^verbatim>\<open>get_kspace()\<close> is the concatenation, in sequence order,
  of the rows of each repetition's full trajectory at the events with \<open>adc_usage > 0\<close>;
  so its number of rows is the number of events with \<open>adc_usage > 0\<close> in the whole
  sequence.
\<close>

theorem get_kspace_measured:
  "s \<noteq> [] \<and> list_all Repetition_valid s \<longrightarrow>
     (\<exists>shots. get_full_kspace s = Inr shots
        \<and> get_kspace s
            = Inr (tensor_of_rows 4
                (concat (map2 (\<lambda>shot r. measured_rows (tensor_rows shot) r) shots s)))
        \<and> length (concat (map2 (\<lambda>shot r. measured_rows (tensor_rows shot) r) shots s))
            = measured_count s)"
proof
  assume a: "s \<noteq> [] \<and> list_all Repetition_valid s"
  then have ne: "s \<noteq> []" and v: "list_all Repetition_valid s" by simp_all
  have sh: "list_all2 (\<lambda>traj r. length traj = event_count r \<and> (\<forall>p\<in>set traj. length p = 4))
      (spec_full_kspace s) s"
    unfolding spec_full_kspace_def by (rule spec_trajectories_shape [OF v]) simp_all
  have eq: "map2 (\<lambda>shot r. measured_rows (tensor_rows shot) r)
        (map (tensor_of_rows 4) (spec_full_kspace s)) s
      = map2 measured_rows (spec_full_kspace s) s"
    by (rule map_tensor_rows_of_rows [OF sh])
  have len: "length (concat (map2 measured_rows (spec_full_kspace s) s)) = measured_count s"
    by (rule measured_total [OF v]) (simp add: spec_full_kspace_def)
  show "\<exists>shots. get_full_kspace s = Inr shots
        \<and> get_kspace s
            = Inr (tensor_of_rows 4
                (concat (map2 (\<lambda>shot r. measured_rows (tensor_rows shot) r) shots s)))
        \<and> length (concat (map2 (\<lambda>shot r. measured_rows (tensor_rows shot) r) shots s))
            = measured_count s"
    using get_full_kspace_eq [OF ne v] get_kspace_eq [OF ne v] eq len
    by (intro exI [of _ "map (tensor_of_rows 4) (spec_full_kspace s)"]) simp
qed

theorem get_kspace_measured_witness:
  "[rep_of EXCIT [1, 1] [1, 0, 0, 1, 0, 0] [0, 1], rep_of REFOC [2] [0, 1, 0] [2]] \<noteq> []
   \<and> list_all Repetition_valid
        [rep_of EXCIT [1, 1] [1, 0, 0, 1, 0, 0] [0, 1], rep_of REFOC [2] [0, 1, 0] [2]]
   \<and> get_kspace [rep_of EXCIT [1, 1] [1, 0, 0, 1, 0, 0] [0, 1], rep_of REFOC [2] [0, 1, 0] [2]]
       = Inr (tensor_of_rows 4 [[2, 0, 0, 2], [- 2, 1, 0, 0]])
   \<and> measured_count [rep_of EXCIT [1, 1] [1, 0, 0, 1, 0, 0] [0, 1], rep_of REFOC [2] [0, 1, 0] [2]] = 2"
proof -
  let ?s = "[rep_of EXCIT [1, 1] [1, 0, 0, 1, 0, 0] [0, 1], rep_of REFOC [2] [0, 1, 0] [2]]"
  let ?m = "\<lambda>shots. concat (map2 (\<lambda>shot r. measured_rows (tensor_rows shot) r) shots ?s)"
  have v: "list_all Repetition_valid ?s"
    by (simp add: rep_of_valid)
  from get_kspace_measured [of ?s] v obtain shots where
    a: "get_full_kspace ?s = Inr shots" and
    b: "get_kspace ?s = Inr (tensor_of_rows 4 (?m shots))" and
    c: "length (?m shots) = measured_count ?s"
    by auto
  have "get_full_kspace ?s
      = Inr [\<lparr>shape = [2, 4], elems = [1, 0, 0, 1, 2, 0, 0, 2]\<rparr>, \<lparr>shape = [1, 4], elems = [- 2, 1, 0, 0]\<rparr>]"
    by (simp add: kspace_eval_defs eval_nat_numeral)
  with a have shots:
    "shots = [\<lparr>shape = [2, 4], elems = [1, 0, 0, 1, 2, 0, 0, 2]\<rparr>, \<lparr>shape = [1, 4], elems = [- 2, 1, 0, 0]\<rparr>]"
    by simp
  have m: "?m shots = [[2, 0, 0, 2], [- 2, 1, 0, 0]]"
    unfolding shots
    by (simp add: measured_rows_def tensor_rows_def dim_size_def rep_of_def eval_nat_numeral)
  from b c v show ?thesis unfolding m by simp
qed

text \<open>
  C2 as stated, for every Sequence, fails on the Sequence without repetitions: it has no
  event with \<open>adc_usage > 0\<close>, so the claim asks for a result of length 0, and
  \<^verbatim>\<open>get_kspace()\<close> raises \<^verbatim>\<open>IndexError\<close>.
\<close>

theorem get_kspace_measured_counterexample:
  "measured_count [] = 0
   \<and> get_kspace [] = Inl IndexError
   \<and> get_kspace [] \<noteq> Inr (tensor_of_rows 4 [])"
  by (simp add: measured_count_def get_kspace_def get_full_kspace_def Sequence_device_def)

section \<open>STORE followed by EXCIT\<close>

lemma map2_add_cancel:
  assumes "length a = length c" and "length c = length b"
    and "map2 (+) a c = map2 (+) b (c::real list)"
  shows "a = b"
  using assms by (induction a c b rule: list_induct3) auto

lemma spec_rep_traj_inject:
  assumes v: "Repetition_valid r" and k: "length k = 4" and k': "length k' = 4"
    and eq: "spec_rep_traj k r = spec_rep_traj k' r"
  shows "k = k'"
proof -
  let ?cs = "spec_cumsum (spec_deltas r)"
  have "length ?cs = event_count r" by simp
  with Repetition_valid_lengths(4) [OF v] obtain c cs where cs: "?cs = c # cs"
    by (cases ?cs) auto
  then have "c \<in> set ?cs" by simp
  then have c4: "length c = 4"
    using spec_cumsum_width [of "spec_deltas r" c] spec_deltas_width [OF v] by blast
  from eq cs have "spec_vadd k c = spec_vadd k' c"
    by (simp add: spec_rep_traj_def)
  then have e: "map2 (+) k c = map2 (+) k' c"
    by (simp only: spec_vadd_def)
  have l1: "length k = length c" and l2: "length c = length k'"
    using k k' c4 by simp_all
  show ?thesis by (rule map2_add_cancel [OF l1 l2 e])
qed

lemma tensor_of_rows_inject:
  assumes "\<forall>p\<in>set a. length p = w" and "\<forall>p\<in>set b. length p = w"
    and "tensor_of_rows w a = tensor_of_rows w b"
  shows "a = b"
proof -
  have "a = tensor_rows (tensor_of_rows w a)"
    by (simp only: tensor_rows_tensor_of_rows [OF assms(1)])
  also have "\<dots> = tensor_rows (tensor_of_rows w b)"
    by (simp only: assms(3))
  also have "\<dots> = b"
    by (simp only: tensor_rows_tensor_of_rows [OF assms(2)])
  finally show ?thesis .
qed

text \<open>
  C4, as the code has it. In a Sequence of three repetitions with pulse usages EXCIT,
  STORE, EXCIT, the STORE pulse saves the position carried into the second repetition,
  which is the last position of the first one, before the second repetition's events
  are added; the third repetition starts from that saved position. So the second and the
  third trajectory are both offset by the first repetition's final position, and the
  third starts from the second's final position only when the second ends where it
  started.
\<close>

theorem store_then_excit_resumes:
  "Repetition_valid r0 \<and> Repetition_valid r1 \<and> Repetition_valid r2
   \<and> usage (pulse r0) = EXCIT \<and> usage (pulse r1) = STORE \<and> usage (pulse r2) = EXCIT \<longrightarrow>
   (\<exists>t0 t1 t2. get_full_kspace [r0, r1, r2] = Inr [t0, t1, t2]
      \<and> t1 = tensor_of_rows 4 (spec_rep_traj (last (tensor_rows t0)) r1)
      \<and> t2 = tensor_of_rows 4 (spec_rep_traj (last (tensor_rows t0)) r2)
      \<and> (t2 = tensor_of_rows 4 (spec_rep_traj (last (tensor_rows t1)) r2)
           \<longleftrightarrow> last (tensor_rows t1) = last (tensor_rows t0)))"
proof
  assume a: "Repetition_valid r0 \<and> Repetition_valid r1 \<and> Repetition_valid r2
   \<and> usage (pulse r0) = EXCIT \<and> usage (pulse r1) = STORE \<and> usage (pulse r2) = EXCIT"
  then have v0: "Repetition_valid r0" and v1: "Repetition_valid r1" and v2: "Repetition_valid r2"
    and u: "usage (pulse r0) = EXCIT" "usage (pulse r1) = STORE" "usage (pulse r2) = EXCIT"
    by simp_all
  let ?z = "[0, 0, 0, 0] :: real list"
  let ?a0 = "spec_rep_traj ?z r0"
  let ?p0 = "last ?a0"
  let ?a1 = "spec_rep_traj ?p0 r1"
  let ?p1 = "last ?a1"
  let ?a2 = "spec_rep_traj ?p0 r2"
  have p0: "length ?p0 = 4" by (rule length_last_spec_rep_traj [OF v0]) simp
  have p1: "length ?p1 = 4" by (rule length_last_spec_rep_traj [OF v1 p0])
  have w0: "\<forall>p\<in>set ?a0. length p = 4" using spec_rep_traj_width [OF v0, of ?z] by simp
  have w1: "\<forall>p\<in>set ?a1. length p = 4" using spec_rep_traj_width [OF v1 p0] by blast
  have w2: "\<forall>p\<in>set ?a2. length p = 4" using spec_rep_traj_width [OF v2 p0] by blast
  have w2': "\<forall>p\<in>set (spec_rep_traj ?p1 r2). length p = 4"
    using spec_rep_traj_width [OF v2 p1] by blast
  have spec: "spec_full_kspace [r0, r1, r2] = [?a0, ?a1, ?a2]"
    by (simp add: spec_full_kspace_def u Let_def)
  have full: "get_full_kspace [r0, r1, r2]
      = Inr [tensor_of_rows 4 ?a0, tensor_of_rows 4 ?a1, tensor_of_rows 4 ?a2]"
    using get_full_kspace_eq [of "[r0, r1, r2]"] v0 v1 v2 by (simp add: spec)
  have r0: "tensor_rows (tensor_of_rows 4 ?a0) = ?a0" by (rule tensor_rows_tensor_of_rows [OF w0])
  have r1: "tensor_rows (tensor_of_rows 4 ?a1) = ?a1" by (rule tensor_rows_tensor_of_rows [OF w1])
  have iff: "tensor_of_rows 4 ?a2 = tensor_of_rows 4 (spec_rep_traj ?p1 r2) \<longleftrightarrow> ?p1 = ?p0"
  proof
    assume "tensor_of_rows 4 ?a2 = tensor_of_rows 4 (spec_rep_traj ?p1 r2)"
    then have "?a2 = spec_rep_traj ?p1 r2" by (rule tensor_of_rows_inject [OF w2 w2'])
    then show "?p1 = ?p0" using spec_rep_traj_inject [OF v2 p0 p1] by simp
  next
    assume "?p1 = ?p0"
    then show "tensor_of_rows 4 ?a2 = tensor_of_rows 4 (spec_rep_traj ?p1 r2)" by simp
  qed
  show "\<exists>t0 t1 t2. get_full_kspace [r0, r1, r2] = Inr [t0, t1, t2]
      \<and> t1 = tensor_of_rows 4 (spec_rep_traj (last (tensor_rows t0)) r1)
      \<and> t2 = tensor_of_rows 4 (spec_rep_traj (last (tensor_rows t0)) r2)
      \<and> (t2 = tensor_of_rows 4 (spec_rep_traj (last (tensor_rows t1)) r2)
           \<longleftrightarrow> last (tensor_rows t1) = last (tensor_rows t0))"
  proof (intro exI conjI)
    show "get_full_kspace [r0, r1, r2]
      = Inr [tensor_of_rows 4 ?a0, tensor_of_rows 4 ?a1, tensor_of_rows 4 ?a2]"
      by (rule full)
    show "tensor_of_rows 4 ?a1 = tensor_of_rows 4 (spec_rep_traj (last (tensor_rows (tensor_of_rows 4 ?a0))) r1)"
      by (simp only: r0)
    show "tensor_of_rows 4 ?a2 = tensor_of_rows 4 (spec_rep_traj (last (tensor_rows (tensor_of_rows 4 ?a0))) r2)"
      by (simp only: r0)
    show "(tensor_of_rows 4 ?a2
          = tensor_of_rows 4 (spec_rep_traj (last (tensor_rows (tensor_of_rows 4 ?a1))) r2))
        \<longleftrightarrow> last (tensor_rows (tensor_of_rows 4 ?a1)) = last (tensor_rows (tensor_of_rows 4 ?a0))"
      by (simp only: r0 r1 iff)
  qed
qed

theorem store_then_excit_resumes_witness:
  "Repetition_valid (rep_of EXCIT [1, 1] [1, 0, 0, 1, 0, 0] [1, 1])
   \<and> Repetition_valid (rep_of STORE [1] [0, 1, 0] [0])
   \<and> Repetition_valid (rep_of EXCIT [1] [0, 0, 1] [1])
   \<and> usage (pulse (rep_of EXCIT [1, 1] [1, 0, 0, 1, 0, 0] [1, 1])) = EXCIT
   \<and> usage (pulse (rep_of STORE [1] [0, 1, 0] [0])) = STORE
   \<and> usage (pulse (rep_of EXCIT [1] [0, 0, 1] [1])) = EXCIT
   \<and> (\<exists>t0 t1 t2.
        get_full_kspace [rep_of EXCIT [1, 1] [1, 0, 0, 1, 0, 0] [1, 1], rep_of STORE [1] [0, 1, 0] [0],
          rep_of EXCIT [1] [0, 0, 1] [1]] = Inr [t0, t1, t2]
        \<and> t2 = tensor_of_rows 4 (spec_rep_traj (last (tensor_rows t0)) (rep_of EXCIT [1] [0, 0, 1] [1])))"
proof -
  have v: "Repetition_valid (rep_of EXCIT [1, 1] [1, 0, 0, 1, 0, 0] [1, 1])"
    "Repetition_valid (rep_of STORE [1] [0, 1, 0] [0])"
    "Repetition_valid (rep_of EXCIT [1] [0, 0, 1] [1])"
    by (simp_all add: rep_of_valid)
  have u: "usage (pulse (rep_of EXCIT [1, 1] [1, 0, 0, 1, 0, 0] [1, 1])) = EXCIT"
    "usage (pulse (rep_of STORE [1] [0, 1, 0] [0])) = STORE"
    "usage (pulse (rep_of EXCIT [1] [0, 0, 1] [1])) = EXCIT"
    by (simp_all add: rep_of_def Pulse_init_def)
  from store_then_excit_resumes [of "rep_of EXCIT [1, 1] [1, 0, 0, 1, 0, 0] [1, 1]"
      "rep_of STORE [1] [0, 1, 0] [0]" "rep_of EXCIT [1] [0, 0, 1] [1]"] v u
  show ?thesis by blast
qed

text \<open>
  C4 as stated fails: with one event of duration 1 in the STORE repetition, the second
  trajectory ends at \<open>(2,1,0,3)\<close>, the first at \<open>(2,0,0,2)\<close>, and the third trajectory is
  the one offset by \<open>(2,0,0,2)\<close>.
\<close>

theorem store_then_excit_counterexample:
  "get_full_kspace [rep_of EXCIT [1, 1] [1, 0, 0, 1, 0, 0] [1, 1], rep_of STORE [1] [0, 1, 0] [0],
        rep_of EXCIT [1] [0, 0, 1] [1]]
     = Inr [\<lparr>shape = [2, 4], elems = [1, 0, 0, 1, 2, 0, 0, 2]\<rparr>,
            \<lparr>shape = [1, 4], elems = [2, 1, 0, 3]\<rparr>,
            \<lparr>shape = [1, 4], elems = [2, 0, 1, 3]\<rparr>]
   \<and> last (tensor_rows \<lparr>shape = [2, 4], elems = [1, 0, 0, 1, 2, 0, 0, 2 :: real]\<rparr>) = [2, 0, 0, 2]
   \<and> last (tensor_rows \<lparr>shape = [1, 4], elems = [2, 1, 0, 3 :: real]\<rparr>) = [2, 1, 0, 3]
   \<and> \<lparr>shape = [1, 4], elems = [2, 0, 1, 3]\<rparr>
       = tensor_of_rows 4 (spec_rep_traj [2, 0, 0, 2] (rep_of EXCIT [1] [0, 0, 1] [1]))
   \<and> \<lparr>shape = [1, 4], elems = [2, 0, 1, 3]\<rparr>
       \<noteq> tensor_of_rows 4 (spec_rep_traj [2, 1, 0, 3] (rep_of EXCIT [1] [0, 0, 1] [1]))"
proof (intro conjI)
  show "get_full_kspace [rep_of EXCIT [1, 1] [1, 0, 0, 1, 0, 0] [1, 1], rep_of STORE [1] [0, 1, 0] [0],
        rep_of EXCIT [1] [0, 0, 1] [1]]
     = Inr [\<lparr>shape = [2, 4], elems = [1, 0, 0, 1, 2, 0, 0, 2]\<rparr>,
            \<lparr>shape = [1, 4], elems = [2, 1, 0, 3]\<rparr>,
            \<lparr>shape = [1, 4], elems = [2, 0, 1, 3]\<rparr>]"
    by (simp add: kspace_eval_defs eval_nat_numeral)
  show "last (tensor_rows \<lparr>shape = [2, 4], elems = [1, 0, 0, 1, 2, 0, 0, 2 :: real]\<rparr>) = [2, 0, 0, 2]"
    by (simp add: tensor_rows_def dim_size_def eval_nat_numeral)
  show "last (tensor_rows \<lparr>shape = [1, 4], elems = [2, 1, 0, 3 :: real]\<rparr>) = [2, 1, 0, 3]"
    by (simp add: tensor_rows_def dim_size_def eval_nat_numeral)
  show "\<lparr>shape = [1, 4], elems = [2, 0, 1, 3]\<rparr>
       = tensor_of_rows 4 (spec_rep_traj [2, 0, 0, 2] (rep_of EXCIT [1] [0, 0, 1] [1]))"
    by (simp add: spec_eval_defs eval_nat_numeral)
  show "\<lparr>shape = [1, 4], elems = [2, 0, 1, 3]\<rparr>
       \<noteq> tensor_of_rows 4 (spec_rep_traj [2, 1, 0, 3] (rep_of EXCIT [1] [0, 0, 1] [1]))"
    by (simp add: spec_eval_defs eval_nat_numeral)
qed

section \<open>Shifting contrasts\<close>

text \<open>
  C7. The claim: shifting by \<open>a\<close> and then by \<open>b\<close> gives, on the entries that were greater
  than 0 before either call, what a single shift by \<open>a + b\<close> gives. The docstring of
  \<^verbatim>\<open>shift_contrasts\<close> says the method does not change which elements are measured. On
  the code a shift can turn a measured entry into an unmeasured one, which the next shift
  then skips:
  \<^item> with \<open>adc_usage = [1]\<close>, \<^verbatim>\<open>shift_contrasts(-1)\<close> leaves \<open>[0]\<close>, the following
    \<^verbatim>\<open>shift_contrasts(1)\<close> leaves \<open>[0]\<close>, and a single \<^verbatim>\<open>shift_contrasts(0)\<close>
    leaves \<open>[1]\<close>;
  \<^item> with \<open>adc_usage = [1]\<close>, \<^verbatim>\<open>shift_contrasts(2147483647)\<close> wraps around to
    \<open>[-2147483648]\<close>, the following \<^verbatim>\<open>shift_contrasts(-1)\<close> leaves it there, and a
    single \<^verbatim>\<open>shift_contrasts(2147483646)\<close> gives \<open>[2147483647]\<close>;
  \<^item> \<^verbatim>\<open>chain\<close> itself passes a negative offset: chaining a sequence with the tag
    \<open>-1\<close> and one with the tag \<open>1\<close> turns the second sequence's tag into 0.
\<close>

theorem shift_contrasts_unmeasures:
  "elems (adc_usage (Repetition_shift_contrasts (rep_of EXCIT [1] [0, 0, 0] [1]) (- 1))) = [0]
   \<and> elems (adc_usage (Repetition_shift_contrasts
                          (Repetition_shift_contrasts (rep_of EXCIT [1] [0, 0, 0] [1]) (- 1)) 1)) = [0]
   \<and> elems (adc_usage (Repetition_shift_contrasts (rep_of EXCIT [1] [0, 0, 0] [1]) (- 1 + 1))) = [1]
   \<and> elems (adc_usage (Repetition_shift_contrasts
                          (Repetition_shift_contrasts (rep_of EXCIT [1] [0, 0, 0] [1]) 2147483647) (- 1)))
       = [- 2147483648]
   \<and> elems (adc_usage (Repetition_shift_contrasts (rep_of EXCIT [1] [0, 0, 0] [1]) (2147483647 + - 1)))
       = [2147483647]
   \<and> chain [[rep_of EXCIT [1] [0, 0, 0] [- 1]], [rep_of EXCIT [1] [0, 0, 0] [1]]] False
       = Inr [rep_of EXCIT [1] [0, 0, 0] [- 1], rep_of EXCIT [1] [0, 0, 0] [0]]"
  by (simp add: chain_eval_defs)

end
